theory Spec2Isabelle
  imports Complex_Main "HOL-Library.AList"
begin

section \<open>The syntax tree read by the package\<close>

text \<open>
  The package reads a file parsed by Go's \<^verbatim>\<open>go/parser\<close>. Only the node types and the
  fields that the package inspects are modelled; every other expression node is
  \<open>OtherExpr\<close>. A Go string is a sequence of bytes, here a \<open>string\<close>.
\<close>

datatype token = token_INT | token_FLOAT | token_IMAG | token_CHAR | token_STRING

record BasicLit =
  Kind :: token
  Value :: string

datatype expr =
    Ident string
  | BasicLitE BasicLit
  | CompositeLit "expr list"
  | KeyValueExpr expr expr
  | StarExpr expr
  | SelectorExpr expr "string option"
  | IndexExpr expr expr
  | OtherExpr

text \<open>
  \<open>SelectorExpr x sel\<close>: \<open>sel\<close> is the name of the field \<^verbatim>\<open>Sel\<close>, \<open>None\<close> when that
  pointer is nil. \<open>IndexExpr\<close> is the type expression of a generic receiver such as
  \<^verbatim>\<open>Box[T]\<close>.
\<close>

text \<open>
  A run-time panic of the Go program is an error value of the model.
\<close>

datatype error = PanicIndexOutOfRange | PanicInterfaceConversion

section \<open>The type parameters and the values they range over\<close>

text \<open>
  The constraint \<^verbatim>\<open>iLit\<close> is the closed set \<^verbatim>\<open>string | iInt | iFloat | bool\<close>. A type
  argument is a \<open>kind\<close>; a Go value boxed in \<^verbatim>\<open>interface{}\<close> is a \<open>gval\<close>, which
  carries its dynamic type. A finite floating-point value is the rational it denotes.
\<close>

datatype kind =
    Tbool | Tstring
  | Tint8 | Tint16 | Tint32 | Tint64
  | Tuint8 | Tuint16 | Tuint32 | Tuint64
  | Tfloat32 | Tfloat64

datatype gval = VBool bool | VString string | VInt kind int | VFloat kind rat

fun type_of :: "gval \<Rightarrow> kind" where
  "type_of (VBool b) = Tbool"
| "type_of (VString s) = Tstring"
| "type_of (VInt k i) = k"
| "type_of (VFloat k r) = k"

text \<open>
  The single-value type assertion \<^verbatim>\<open>(interface{})(v).(T)\<close> for a type \<open>T\<close> that is not
  an interface type: it asserts that the dynamic type of \<open>v\<close> is identical to \<open>T\<close>,
  yields \<open>v\<close> when it is and panics otherwise. It converts nothing: an \<^verbatim>\<open>int64\<close>
  asserted to be an \<^verbatim>\<open>int8\<close> panics whatever its value.
\<close>

definition type_assert :: "gval \<Rightarrow> kind \<Rightarrow> error + gval" where
  "type_assert v T = (if type_of v = T then Inr v else Inl PanicInterfaceConversion)"

section \<open>The functions of package strconv that the code calls\<close>

text \<open>
  \<^verbatim>\<open>strconv.ParseUint\<close>, \<^verbatim>\<open>strconv.ParseInt\<close> and \<^verbatim>\<open>strconv.ParseBool\<close> of the Go
  standard library, the first two at base 10, the only base the package passes. Each
  returns its value together with the error (\<open>None\<close> for a nil error), as the Go
  functions do. The accumulator of \<^verbatim>\<open>ParseUint\<close> is a \<^verbatim>\<open>uint64\<close>: its
  multiplication and addition wrap modulo \<open>2 ^ 64\<close>.
\<close>

datatype num_error = ErrSyntax | ErrRange

definition is_digit :: "char \<Rightarrow> bool" where
  "is_digit c = (48 \<le> (of_char c :: nat) \<and> (of_char c :: nat) \<le> 57)"

definition digit_val :: "char \<Rightarrow> nat" where
  "digit_val c = (of_char c :: nat) - 48"

definition maxUint64 :: nat where
  "maxUint64 = 2 ^ 64 - 1"

definition cutoff10 :: nat where
  "cutoff10 = maxUint64 div 10 + 1"

fun uint_loop :: "nat \<Rightarrow> nat \<Rightarrow> string \<Rightarrow> nat \<times> num_error option" where
  "uint_loop maxVal n [] = (n, None)"
| "uint_loop maxVal n (c # cs) =
     (if \<not> is_digit c then (0, Some ErrSyntax)
      else if n \<ge> cutoff10 then (maxVal, Some ErrRange)
      else let n' = (n * 10) mod 2 ^ 64;
               n1 = (n' + digit_val c) mod 2 ^ 64
           in if n1 < n' \<or> n1 > maxVal then (maxVal, Some ErrRange)
              else uint_loop maxVal n1 cs)"

definition ParseUint :: "string \<Rightarrow> nat \<Rightarrow> nat \<times> num_error option" where
  "ParseUint s bitSize =
     (if s = [] then (0, Some ErrSyntax)
      else uint_loop (2 ^ bitSize - 1) 0 s)"

definition ParseInt :: "string \<Rightarrow> nat \<Rightarrow> int \<times> num_error option" where
  "ParseInt s0 bitSize =
     (if s0 = [] then (0, Some ErrSyntax)
      else
        let neg = (hd s0 = CHR ''-'');
            s = (if hd s0 = CHR ''+'' \<or> hd s0 = CHR ''-'' then tl s0 else s0);
            (un, err) = ParseUint s bitSize
        in if err = Some ErrSyntax then (0, err)
           else
             let cutoff = (2::nat) ^ (bitSize - 1)
             in if \<not> neg \<and> un \<ge> cutoff then (int cutoff - 1, Some ErrRange)
                else if neg \<and> un > cutoff then (- int cutoff, Some ErrRange)
                else (if neg then - int un else int un, None))"

definition ParseBool :: "string \<Rightarrow> bool \<times> num_error option" where
  "ParseBool str =
     (if str \<in> {''1'', ''t'', ''T'', ''TRUE'', ''true'', ''True''} then (True, None)
      else if str \<in> {''0'', ''f'', ''F'', ''FALSE'', ''false'', ''False''} then (False, None)
      else (False, Some ErrSyntax))"

text \<open>
  \<^verbatim>\<open>strconv.Unquote\<close>, \<^verbatim>\<open>strconv.ParseFloat\<close> and the verb \<^verbatim>\<open>%q\<close> of
  \<^verbatim>\<open>fmt.Sprintf\<close> are parameters of the model: no property below depends on what
  they compute. \<open>Unquote\<close> and \<open>ParseFloat\<close> return \<open>None\<close> for a non-nil error.
\<close>

record stdlib =
  Unquote :: "string \<Rightarrow> string option"
  ParseFloat :: "string \<Rightarrow> nat \<Rightarrow> rat option"
  Quote :: "string \<Rightarrow> string"

section \<open>The literal decoder\<close>

definition parseBool :: "string \<Rightarrow> bool \<times> bool" where
  "parseBool name =
     (case ParseBool name of
        (b, Some err) \<Rightarrow> (False, False)
      | (b, None) \<Rightarrow> (b, True))"

text \<open>
  \<^verbatim>\<open>parseUint[I]\<close>, \<^verbatim>\<open>parseInt[I]\<close> and \<^verbatim>\<open>parseFloat[F]\<close> return a pointer: \<open>Inr None\<close>
  is nil. The value parsed is a \<^verbatim>\<open>uint64\<close>, \<^verbatim>\<open>int64\<close> or \<^verbatim>\<open>float64\<close>, and the last
  statement asserts that it has the type \<open>I\<close>.
\<close>

definition parseUint :: "kind \<Rightarrow> string \<Rightarrow> error + gval option" where
  "parseUint I s =
     (case (case I of Tuint8 \<Rightarrow> Some 8 | Tuint16 \<Rightarrow> Some 16
                    | Tuint32 \<Rightarrow> Some 32 | Tuint64 \<Rightarrow> Some (64::nat) | _ \<Rightarrow> None) of
        None \<Rightarrow> Inr None
      | Some bitSize \<Rightarrow>
          (case ParseUint s bitSize of
             (uintVal, Some err) \<Rightarrow> Inr None
           | (uintVal, None) \<Rightarrow>
               (case type_assert (VInt Tuint64 (int uintVal)) I of
                  Inl e \<Rightarrow> Inl e
                | Inr zeroVal \<Rightarrow> Inr (Some zeroVal))))"

definition parseInt :: "kind \<Rightarrow> string \<Rightarrow> error + gval option" where
  "parseInt I s =
     (case (case I of Tint8 \<Rightarrow> Some 8 | Tint16 \<Rightarrow> Some 16
                    | Tint32 \<Rightarrow> Some 32 | Tint64 \<Rightarrow> Some (64::nat) | _ \<Rightarrow> None) of
        None \<Rightarrow> Inr None
      | Some bitSize \<Rightarrow>
          (case ParseInt s bitSize of
             (intVal, Some err) \<Rightarrow> Inr None
           | (intVal, None) \<Rightarrow>
               (case type_assert (VInt Tint64 intVal) I of
                  Inl e \<Rightarrow> Inl e
                | Inr zeroVal \<Rightarrow> Inr (Some zeroVal))))"

definition parseFloat :: "stdlib \<Rightarrow> kind \<Rightarrow> string \<Rightarrow> error + gval option" where
  "parseFloat lib F s =
     (case (case F of Tfloat32 \<Rightarrow> Some 32 | Tfloat64 \<Rightarrow> Some (64::nat) | _ \<Rightarrow> None) of
        None \<Rightarrow> Inr None
      | Some bitSize \<Rightarrow>
          (case ParseFloat lib s bitSize of
             None \<Rightarrow> Inr None
           | Some fVal \<Rightarrow>
               (case type_assert (VFloat Tfloat64 fVal) F of
                  Inl e \<Rightarrow> Inl e
                | Inr zeroVal \<Rightarrow> Inr (Some zeroVal))))"

definition parseIntLit :: "kind \<Rightarrow> BasicLit \<Rightarrow> error + gval option" where
  "parseIntLit I val =
     (if Kind val \<noteq> token_INT then Inr None
      else if I \<in> {Tint8, Tint16, Tint32, Tint64} then parseInt I (Value val)
      else if I \<in> {Tuint8, Tuint16, Tuint32, Tuint64} then parseUint I (Value val)
      else Inr None)"

definition parseFloatLit :: "stdlib \<Rightarrow> kind \<Rightarrow> BasicLit \<Rightarrow> error + gval option" where
  "parseFloatLit lib F val =
     (if Kind val \<noteq> token_FLOAT then Inr None
      else if F \<in> {Tfloat32, Tfloat64} then parseFloat lib F (Value val)
      else Inr None)"

text \<open>
  \<^verbatim>\<open>parseBasicLit[V]\<close> switches on the type argument. There is no case for
  \<^verbatim>\<open>bool\<close>: the default branch returns nil.
\<close>

definition parseBasicLit :: "stdlib \<Rightarrow> kind \<Rightarrow> BasicLit \<Rightarrow> error + gval option" where
  "parseBasicLit lib V val =
     (if V = Tstring then
        (if Kind val \<noteq> token_STRING then Inr None
         else case Unquote lib (Value val) of
                None \<Rightarrow> Inr None
              | Some strVal \<Rightarrow>
                  (case type_assert (VString strVal) V of
                     Inl e \<Rightarrow> Inl e
                   | Inr zeroVal \<Rightarrow> Inr (Some zeroVal)))
      else if V \<in> {Tint8, Tint16, Tint32, Tint64, Tuint8, Tuint16, Tuint32, Tuint64} then
        (case parseIntLit V val of
           Inl e \<Rightarrow> Inl e
         | Inr None \<Rightarrow> Inr None
         | Inr (Some iv) \<Rightarrow>
             (case type_assert iv V of
                Inl e \<Rightarrow> Inl e
              | Inr zeroVal \<Rightarrow> Inr (Some zeroVal)))
      else if V \<in> {Tfloat32, Tfloat64} then
        (case parseFloatLit lib V val of
           Inl e \<Rightarrow> Inl e
         | Inr None \<Rightarrow> Inr None
         | Inr (Some fv) \<Rightarrow>
             (case type_assert fv V of
                Inl e \<Rightarrow> Inl e
              | Inr zeroVal \<Rightarrow> Inr (Some zeroVal)))
      else Inr None)"

section \<open>The declarations of a file\<close>

text \<open>
  The loop of \<^verbatim>\<open>walkDecls\<close> reads the documentation and the values of a name through
  \<^verbatim>\<open>n.Obj.Decl\<close>, never through the \<^verbatim>\<open>ValueSpec\<close> it iterates over. \<open>ValueSpec\<close> holds
  the two fields read there: \<open>Doc\<close> is \<open>None\<close> for a nil comment group and otherwise the
  texts of the group's comments; \<open>Obj\<close> is \<open>None\<close> for a nil object, and \<open>DeclOther\<close>
  when \<^verbatim>\<open>Obj.Decl\<close> is not a \<^verbatim>\<open>*ast.ValueSpec\<close>.
\<close>

record ValueSpec =
  Doc :: "string list option"
  Values :: "expr list"

datatype ObjDecl = DeclValueSpec ValueSpec | DeclOther

record NameIdent =
  Name :: string
  Obj :: "ObjDecl option"

datatype Spec = ValueSpecNames "NameIdent list" | OtherSpec

text \<open>
  A field list is the list of the types of its fields. \<open>Recv\<close>, \<open>Type\<close> and \<open>Params\<close>
  are \<open>None\<close> for a nil pointer; \<open>FuncName\<close> is \<^verbatim>\<open>decl.Name.Name\<close>.
\<close>

record FuncType =
  Params :: "expr list option"

record FuncDecl =
  Recv :: "expr list option"
  FuncName :: string
  Type :: "FuncType option"

datatype Decl = GenDecl "Spec list" | FuncDeclD FuncDecl | BadDecl

record File =
  Decls :: "Decl list"

text \<open>
  What the parser builds for one \<^verbatim>\<open>ValueSpec\<close> of a \<^verbatim>\<open>var\<close> or \<^verbatim>\<open>const\<close> declaration:
  the object of every name points back to the specification.
\<close>

definition parsedValueSpec :: "string list option \<Rightarrow> string list \<Rightarrow> expr list \<Rightarrow> Spec" where
  "parsedValueSpec doc names vals =
     ValueSpecNames
       (map (\<lambda>n. \<lparr>Name = n, Obj = Some (DeclValueSpec \<lparr>Doc = doc, Values = vals\<rparr>)\<rparr>) names)"

section \<open>The records returned\<close>

text \<open>
  The fields of each record are \<^verbatim>\<open>Doc\<close>, \<^verbatim>\<open>Name\<close> and \<^verbatim>\<open>Value\<close>, in this order. A Go
  map is an association list with distinct keys, kept in the order in which the keys
  were first inserted; the program cannot observe that order.
\<close>

datatype LitValue = LitValue string string gval

datatype SliceLitValue = SliceLitValue string string "gval list"

datatype MapLitValue = MapLitValue string string "(gval \<times> gval) list"

section \<open>The declaration walk\<close>

definition TrimLeft :: "string \<Rightarrow> string \<Rightarrow> string" where
  "TrimLeft s cutset = dropWhile (\<lambda>c. c \<in> set cutset) s"

text \<open>
  The scan of the comment lines; the result is the variable \<^verbatim>\<open>foundDoc\<close>, which
  starts as the empty string.
\<close>

fun findDoc :: "string set \<Rightarrow> string list \<Rightarrow> string" where
  "findDoc docMap [] = []"
| "findDoc docMap (doc # rest) =
     (let docTxt = TrimLeft doc ''/ ''
      in if docTxt \<in> docMap then docTxt else findDoc docMap rest)"

text \<open>
  The body of the innermost loop for one name: \<open>Inr None\<close> when the name adds nothing
  to the result, \<open>Inr (Some res)\<close> when \<open>res\<close> is appended, \<open>Inl\<close> when it panics.
\<close>

definition visitName ::
  "string set \<Rightarrow> (string \<Rightarrow> string \<Rightarrow> expr \<Rightarrow> error + 't option) \<Rightarrow> NameIdent \<Rightarrow> error + 't option"
where
  "visitName docMap fn n =
     (case Obj n of
        None \<Rightarrow> Inr None
      | Some DeclOther \<Rightarrow> Inr None
      | Some (DeclValueSpec vSpec) \<Rightarrow>
          (case Doc vSpec of
             None \<Rightarrow> Inr None
           | Some lst \<Rightarrow>
               if length lst < 1 then Inr None
               else
                 let foundDoc = findDoc docMap lst
                 in if foundDoc = [] then Inr None
                    else (case Values vSpec of
                            [] \<Rightarrow> Inl PanicIndexOutOfRange
                          | val # _ \<Rightarrow> fn foundDoc (Name n) val)))"

fun walkNames ::
  "string set \<Rightarrow> (string \<Rightarrow> string \<Rightarrow> expr \<Rightarrow> error + 't option) \<Rightarrow> NameIdent list \<Rightarrow> 't list
     \<Rightarrow> error + 't list"
where
  "walkNames docMap fn [] result = Inr result"
| "walkNames docMap fn (n # ns) result =
     (case visitName docMap fn n of
        Inl e \<Rightarrow> Inl e
      | Inr None \<Rightarrow> walkNames docMap fn ns result
      | Inr (Some res) \<Rightarrow> walkNames docMap fn ns (result @ [res]))"

fun walkSpecs ::
  "string set \<Rightarrow> (string \<Rightarrow> string \<Rightarrow> expr \<Rightarrow> error + 't option) \<Rightarrow> Spec list \<Rightarrow> 't list
     \<Rightarrow> error + 't list"
where
  "walkSpecs docMap fn [] result = Inr result"
| "walkSpecs docMap fn (ValueSpecNames names # specs) result =
     (case walkNames docMap fn names result of
        Inl e \<Rightarrow> Inl e
      | Inr result' \<Rightarrow> walkSpecs docMap fn specs result')"
| "walkSpecs docMap fn (OtherSpec # specs) result = walkSpecs docMap fn specs result"

fun walkDeclList ::
  "string set \<Rightarrow> (string \<Rightarrow> string \<Rightarrow> expr \<Rightarrow> error + 't option) \<Rightarrow> Decl list \<Rightarrow> 't list
     \<Rightarrow> error + 't list"
where
  "walkDeclList docMap fn [] result = Inr result"
| "walkDeclList docMap fn (GenDecl specs # ds) result =
     (case walkSpecs docMap fn specs result of
        Inl e \<Rightarrow> Inl e
      | Inr result' \<Rightarrow> walkDeclList docMap fn ds result')"
| "walkDeclList docMap fn (d # ds) result = walkDeclList docMap fn ds result"

definition walkDecls ::
  "File \<Rightarrow> string set \<Rightarrow> (string \<Rightarrow> string \<Rightarrow> expr \<Rightarrow> error + 't option) \<Rightarrow> error + 't list"
where
  "walkDecls f docMap fn = walkDeclList docMap fn (Decls f) []"

section \<open>The three queries\<close>

text \<open>
  Each query passes \<^verbatim>\<open>walkDecls\<close> a closure; \<open>getBasicValues_fn\<close>,
  \<open>getSliceValues_fn\<close> and \<open>getMapValues_fn\<close> are these closures.
\<close>

definition getBasicValues_fn ::
  "stdlib \<Rightarrow> kind \<Rightarrow> string \<Rightarrow> string \<Rightarrow> expr \<Rightarrow> error + LitValue option"
where
  "getBasicValues_fn lib V doc name val =
     (case val of
        Ident vName \<Rightarrow>
          if V \<noteq> Tbool then Inr None
          else (case parseBool vName of
                  (b, False) \<Rightarrow> Inr None
                | (b, True) \<Rightarrow>
                    (case type_assert (VBool b) V of
                       Inl e \<Rightarrow> Inl e
                     | Inr tVal \<Rightarrow> Inr (Some (LitValue doc name tVal))))
      | BasicLitE v \<Rightarrow>
          (case parseBasicLit lib V v of
             Inl e \<Rightarrow> Inl e
           | Inr None \<Rightarrow> Inr None
           | Inr (Some tVal) \<Rightarrow> Inr (Some (LitValue doc name tVal)))
      | _ \<Rightarrow> Inr None)"

definition getBasicValues :: "stdlib \<Rightarrow> kind \<Rightarrow> File \<Rightarrow> string set \<Rightarrow> error + LitValue list" where
  "getBasicValues lib V f docMap = walkDecls f docMap (getBasicValues_fn lib V)"

text \<open>
  The loop over the elements of a composite literal: \<open>Inr None\<close> is the
  \<^verbatim>\<open>return nil\<close> inside the loop, \<open>Inr (Some sValues)\<close> the slice when the loop ends.
\<close>

fun sliceLoop :: "stdlib \<Rightarrow> kind \<Rightarrow> expr list \<Rightarrow> gval list \<Rightarrow> error + gval list option" where
  "sliceLoop lib V [] sValues = Inr (Some sValues)"
| "sliceLoop lib V (BasicLitE bVal # elts) sValues =
     (case parseBasicLit lib V bVal of
        Inl e \<Rightarrow> Inl e
      | Inr None \<Rightarrow> Inr None
      | Inr (Some pVal) \<Rightarrow> sliceLoop lib V elts (sValues @ [pVal]))"
| "sliceLoop lib V (elt # elts) sValues = sliceLoop lib V elts sValues"

definition getSliceValues_fn ::
  "stdlib \<Rightarrow> kind \<Rightarrow> string \<Rightarrow> string \<Rightarrow> expr \<Rightarrow> error + SliceLitValue option"
where
  "getSliceValues_fn lib V doc name val =
     (case val of
        CompositeLit elts \<Rightarrow>
          (case sliceLoop lib V elts [] of
             Inl e \<Rightarrow> Inl e
           | Inr None \<Rightarrow> Inr None
           | Inr (Some sValues) \<Rightarrow>
               if length sValues > 0 then Inr (Some (SliceLitValue doc name sValues))
               else Inr None)
      | _ \<Rightarrow> Inr None)"

definition getSliceValues ::
  "stdlib \<Rightarrow> kind \<Rightarrow> File \<Rightarrow> string set \<Rightarrow> error + SliceLitValue list"
where
  "getSliceValues lib V f docMap = walkDecls f docMap (getSliceValues_fn lib V)"

text \<open>
  The loop of the mapping query. Both sides of an element are decoded, the key first,
  before either result is tested for nil.
\<close>

fun mapLoop ::
  "stdlib \<Rightarrow> kind \<Rightarrow> kind \<Rightarrow> expr list \<Rightarrow> (gval \<times> gval) list \<Rightarrow> error + (gval \<times> gval) list"
where
  "mapLoop lib K V [] cValues = Inr cValues"
| "mapLoop lib K V (KeyValueExpr (BasicLitE bKey) (BasicLitE bVal) # elts) cValues =
     (case parseBasicLit lib K bKey of
        Inl e \<Rightarrow> Inl e
      | Inr k \<Rightarrow>
          (case parseBasicLit lib V bVal of
             Inl e \<Rightarrow> Inl e
           | Inr v \<Rightarrow>
               (case (k, v) of
                  (Some k', Some v') \<Rightarrow> mapLoop lib K V elts (AList.update k' v' cValues)
                | _ \<Rightarrow> mapLoop lib K V elts cValues)))"
| "mapLoop lib K V (elt # elts) cValues = mapLoop lib K V elts cValues"

definition getMapValues_fn ::
  "stdlib \<Rightarrow> kind \<Rightarrow> kind \<Rightarrow> string \<Rightarrow> string \<Rightarrow> expr \<Rightarrow> error + MapLitValue option"
where
  "getMapValues_fn lib K V doc name val =
     (case val of
        CompositeLit elts \<Rightarrow>
          (case mapLoop lib K V elts [] of
             Inl e \<Rightarrow> Inl e
           | Inr cValues \<Rightarrow>
               if length cValues > 0 then Inr (Some (MapLitValue doc name cValues))
               else Inr None)
      | _ \<Rightarrow> Inr None)"

definition getMapValues ::
  "stdlib \<Rightarrow> kind \<Rightarrow> kind \<Rightarrow> File \<Rightarrow> string set \<Rightarrow> error + MapLitValue list"
where
  "getMapValues lib K V f docMap = walkDecls f docMap (getMapValues_fn lib K V)"

text \<open>The exported functions; a nil slice and an empty slice are both \<open>[]\<close>.\<close>

record GoParser =
  astFile :: File

definition GetBasicValues :: "stdlib \<Rightarrow> kind \<Rightarrow> GoParser \<Rightarrow> string list \<Rightarrow> error + LitValue list" where
  "GetBasicValues lib V g docLabels =
     (if length docLabels = 0 then Inr [] else getBasicValues lib V (astFile g) (set docLabels))"

definition GetSliceValues ::
  "stdlib \<Rightarrow> kind \<Rightarrow> GoParser \<Rightarrow> string list \<Rightarrow> error + SliceLitValue list"
where
  "GetSliceValues lib V g docLabels =
     (if length docLabels = 0 then Inr [] else getSliceValues lib V (astFile g) (set docLabels))"

definition GetMapValues ::
  "stdlib \<Rightarrow> kind \<Rightarrow> kind \<Rightarrow> GoParser \<Rightarrow> string list \<Rightarrow> error + MapLitValue list"
where
  "GetMapValues lib K V g docLabels =
     (if length docLabels = 0 then Inr [] else getMapValues lib K V (astFile g) (set docLabels))"

section \<open>The function filter\<close>

text \<open>
  The test of the receiver: \<open>Inr False\<close> is a \<^verbatim>\<open>continue\<close> of the outer loop. The
  switch on the receiver's type has the cases \<^verbatim>\<open>*ast.Ident\<close> and \<^verbatim>\<open>*ast.StarExpr\<close> and
  no default.
\<close>

definition recvCheck :: "expr list option \<Rightarrow> string \<Rightarrow> error + bool" where
  "recvCheck rec recType =
     (case rec of
        None \<Rightarrow> Inr (\<not> (recType \<noteq> []))
      | Some lst \<Rightarrow>
          (case lst of
             [] \<Rightarrow> Inl PanicIndexOutOfRange
           | r # _ \<Rightarrow>
               (case r of
                  Ident rName \<Rightarrow> Inr (\<not> (rName \<noteq> recType))
                | StarExpr x \<Rightarrow>
                    (case x of
                       Ident idName \<Rightarrow> Inr (\<not> (idName \<noteq> recType))
                     | _ \<Rightarrow> Inr False)
                | _ \<Rightarrow> Inr True)))"

text \<open>The key that one parameter adds to \<^verbatim>\<open>paramsMap\<close>, if it adds one.\<close>

fun paramKey :: "expr \<Rightarrow> string option" where
  "paramKey (Ident pName) = Some pName"
| "paramKey (StarExpr (Ident sName)) = Some sName"
| "paramKey (StarExpr (SelectorExpr x sel)) = sel"
| "paramKey (SelectorExpr x sel) = sel"
| "paramKey e = None"

definition paramsMap :: "expr list \<Rightarrow> string set" where
  "paramsMap lst = set (List.map_filter paramKey lst)"

definition paramsCheck :: "stdlib \<Rightarrow> FuncType option \<Rightarrow> string list \<Rightarrow> bool" where
  "paramsCheck lib t paramTypes =
     (case (case t of None \<Rightarrow> None | Some ft \<Rightarrow> Params ft) of
        None \<Rightarrow> \<not> (length paramTypes > 0)
      | Some lst \<Rightarrow>
          list_all (\<lambda>par. par \<in> paramsMap lst \<or> Quote lib par \<in> paramsMap lst) paramTypes)"

fun funcLoop :: "stdlib \<Rightarrow> Decl list \<Rightarrow> string \<Rightarrow> string list \<Rightarrow> string list \<Rightarrow> error + string list" where
  "funcLoop lib [] recType paramTypes result = Inr result"
| "funcLoop lib (FuncDeclD decl # ds) recType paramTypes result =
     (case recvCheck (Recv decl) recType of
        Inl e \<Rightarrow> Inl e
      | Inr False \<Rightarrow> funcLoop lib ds recType paramTypes result
      | Inr True \<Rightarrow>
          if paramsCheck lib (Type decl) paramTypes
          then funcLoop lib ds recType paramTypes (result @ [FuncName decl])
          else funcLoop lib ds recType paramTypes result)"
| "funcLoop lib (d # ds) recType paramTypes result = funcLoop lib ds recType paramTypes result"

definition GetFuncNames :: "stdlib \<Rightarrow> GoParser \<Rightarrow> string \<Rightarrow> string list \<Rightarrow> error + string list" where
  "GetFuncNames lib g recType paramTypes = funcLoop lib (Decls (astFile g)) recType paramTypes []"

section \<open>Notions used to state the properties\<close>

text \<open>
  The names of a file in the order in which \<^verbatim>\<open>walkDecls\<close> visits them, the tag that
  the scan of a name's comment finds (empty when there is none), and the list of
  initializers that the walk reads through the name's object.
\<close>

fun specNames :: "Spec \<Rightarrow> NameIdent list" where
  "specNames (ValueSpecNames names) = names"
| "specNames OtherSpec = []"

fun declNames :: "Decl \<Rightarrow> NameIdent list" where
  "declNames (GenDecl specs) = concat (map specNames specs)"
| "declNames d = []"

definition allNames :: "File \<Rightarrow> NameIdent list" where
  "allNames f = concat (map declNames (Decls f))"

definition matchedTag :: "string set \<Rightarrow> NameIdent \<Rightarrow> string" where
  "matchedTag docMap n =
     (case Obj n of
        Some (DeclValueSpec vSpec) \<Rightarrow>
          (case Doc vSpec of Some lst \<Rightarrow> findDoc docMap lst | None \<Rightarrow> [])
      | _ \<Rightarrow> [])"

definition initializers :: "NameIdent \<Rightarrow> expr list" where
  "initializers n = (case Obj n of Some (DeclValueSpec vSpec) \<Rightarrow> Values vSpec | _ \<Rightarrow> [])"

text \<open>
  An instance of the parameters, used to evaluate the examples. The examples decode
  booleans and integers only, which call neither \<open>Unquote\<close> nor \<open>ParseFloat\<close>; \<open>Quote\<close>
  is what \<^verbatim>\<open>%q\<close> prints for a string that needs no escape.
\<close>

definition example_lib :: stdlib where
  "example_lib =
     \<lparr>Unquote = (\<lambda>s. None),
      ParseFloat = (\<lambda>s bitSize. None),
      Quote = (\<lambda>s. CHR 0x22 # s @ [CHR 0x22])\<rparr>"

text \<open>
  The kind of basic literal that each branch of \<^verbatim>\<open>parseBasicLit\<close> accepts; the type
  \<^verbatim>\<open>bool\<close> has no branch.
\<close>

definition literalCategory :: "kind \<Rightarrow> token option" where
  "literalCategory V =
     (if V = Tstring then Some token_STRING
      else if V \<in> {Tint8, Tint16, Tint32, Tint64, Tuint8, Tuint16, Tuint32, Tuint64}
        then Some token_INT
      else if V \<in> {Tfloat32, Tfloat64} then Some token_FLOAT
      else None)"

text \<open>
  An integer literal with the given text, as the parser builds it.
\<close>

definition intLit :: "string \<Rightarrow> expr" where
  "intLit s = BasicLitE \<lparr>Kind = token_INT, Value = s\<rparr>"

text \<open>
  The elements that the sequence loop decodes are the basic literals; the pair that the
  mapping loop inserts for an element, when it inserts one.
\<close>

fun isBasicLit :: "expr \<Rightarrow> bool" where
  "isBasicLit (BasicLitE b) = True"
| "isBasicLit e = False"

fun decodedPair :: "stdlib \<Rightarrow> kind \<Rightarrow> kind \<Rightarrow> expr \<Rightarrow> (gval \<times> gval) option" where
  "decodedPair lib K V (KeyValueExpr (BasicLitE bKey) (BasicLitE bVal)) =
     (case (parseBasicLit lib K bKey, parseBasicLit lib V bVal) of
        (Inr (Some k), Inr (Some v)) \<Rightarrow> Some (k, v)
      | _ \<Rightarrow> None)"
| "decodedPair lib K V elt = None"

text \<open>
  The value of a string of decimal digits, read after the prefix of value \<open>n\<close>, and the
  largest value of each integer type.
\<close>

fun dec_val :: "nat \<Rightarrow> string \<Rightarrow> nat" where
  "dec_val n [] = n"
| "dec_val n (c # cs) = dec_val (n * 10 + digit_val c) cs"

definition maxValue :: "kind \<Rightarrow> nat" where
  "maxValue I =
     (case I of
        Tint8 \<Rightarrow> 2 ^ 7 - 1 | Tint16 \<Rightarrow> 2 ^ 15 - 1 | Tint32 \<Rightarrow> 2 ^ 31 - 1 | Tint64 \<Rightarrow> 2 ^ 63 - 1
      | Tuint8 \<Rightarrow> 2 ^ 8 - 1 | Tuint16 \<Rightarrow> 2 ^ 16 - 1 | Tuint32 \<Rightarrow> 2 ^ 32 - 1 | Tuint64 \<Rightarrow> 2 ^ 64 - 1
      | _ \<Rightarrow> 0)"

text \<open>
  The function declarations of a file in source order; the name of a receiver's type,
  through one pointer; the receivers whose type is an identifier or a pointer type, with
  a non-empty identifier; and the receiver test as the interface describes it.
\<close>

fun funcDecls :: "Decl list \<Rightarrow> FuncDecl list" where
  "funcDecls [] = []"
| "funcDecls (FuncDeclD decl # ds) = decl # funcDecls ds"
| "funcDecls (d # ds) = funcDecls ds"

fun recvTypeName :: "expr list option \<Rightarrow> string option" where
  "recvTypeName (Some (Ident rName # rs)) = Some rName"
| "recvTypeName (Some (StarExpr (Ident idName) # rs)) = Some idName"
| "recvTypeName rec = None"

fun plainRecv :: "expr list option \<Rightarrow> bool" where
  "plainRecv None = True"
| "plainRecv (Some (Ident rName # rs)) = (rName \<noteq> [])"
| "plainRecv (Some (StarExpr (Ident idName) # rs)) = (idName \<noteq> [])"
| "plainRecv (Some (StarExpr x # rs)) = True"
| "plainRecv rec = False"

definition recvMatches :: "FuncDecl \<Rightarrow> string \<Rightarrow> bool" where
  "recvMatches decl recType =
     (if recType = [] then Recv decl = None else recvTypeName (Recv decl) = Some recType)"

text \<open>The four functions of the package's example file.\<close>

definition example_funcs :: File where
  "example_funcs =
     \<lparr>Decls =
        [GenDecl [OtherSpec],
         FuncDeclD \<lparr>Recv = Some [StarExpr (Ident ''LocalStruct'')], FuncName = ''usefulFunc1'',
           Type = Some \<lparr>Params = Some [StarExpr (SelectorExpr (Ident ''context'') (Some ''Context'')),
                                       Ident ''string'']\<rparr>\<rparr>,
         FuncDeclD \<lparr>Recv = Some [Ident ''LocalStruct''], FuncName = ''usefulFunc2'',
           Type = Some \<lparr>Params = Some [StarExpr (SelectorExpr (Ident ''context'') (Some ''Context'')),
                                       Ident ''string'']\<rparr>\<rparr>,
         FuncDeclD \<lparr>Recv = Some [Ident ''LocalStruct''], FuncName = ''usefulFunc3'',
           Type = Some \<lparr>Params = Some [SelectorExpr (Ident ''context'') (Some ''Context''),
                                       Ident ''string'']\<rparr>\<rparr>,
         FuncDeclD \<lparr>Recv = None, FuncName = ''usefulFunc4'',
           Type = Some \<lparr>Params = Some [SelectorExpr (Ident ''context'') (Some ''Context''),
                                       StarExpr (Ident ''string'')]\<rparr>\<rparr>]\<rparr>"

text \<open>
  Variables in the manner of the example file: \<^verbatim>\<open>boolValue = true\<close>,
  \<^verbatim>\<open>intValue = 3\<close> and \<^verbatim>\<open>intSliceValue = []int{3, 17}\<close> tagged \<^verbatim>\<open>parser\<close>, and
  \<^verbatim>\<open>notParsedInValue = 17\<close> without a comment.
\<close>

definition example_vars :: File where
  "example_vars =
     \<lparr>Decls =
        [GenDecl
           [parsedValueSpec (Some [''// parser'']) [''boolValue''] [Ident ''true''],
            parsedValueSpec (Some [''// parser'']) [''intValue''] [intLit ''3''],
            parsedValueSpec None [''notParsedInValue''] [intLit ''17''],
            parsedValueSpec (Some [''// parser'']) [''intSliceValue'']
              [CompositeLit [intLit ''3'', intLit ''17'']]]]\<rparr>"

section \<open>The declaration walk as one loop over the names\<close>

lemma visitName_eq:
  "visitName docMap fn n =
     (if matchedTag docMap n = [] then Inr None
      else case initializers n of
             [] \<Rightarrow> Inl PanicIndexOutOfRange
           | val # _ \<Rightarrow> fn (matchedTag docMap n) (Name n) val)"
  by (auto simp: visitName_def matchedTag_def initializers_def Let_def
           split: option.splits ObjDecl.splits list.splits)

lemma walkNames_append:
  "walkNames docMap fn (xs @ ys) acc =
     (case walkNames docMap fn xs acc of Inl e \<Rightarrow> Inl e | Inr r \<Rightarrow> walkNames docMap fn ys r)"
  by (induction xs arbitrary: acc) (auto split: sum.splits option.splits)

lemma walkSpecs_flat:
  "walkSpecs docMap fn specs acc = walkNames docMap fn (concat (map specNames specs)) acc"
proof (induction specs arbitrary: acc)
  case Nil
  show ?case by simp
next
  case (Cons s specs)
  show ?case
    by (cases s) (simp_all add: walkNames_append Cons.IH split: sum.splits)
qed

lemma walkDeclList_flat:
  "walkDeclList docMap fn ds acc = walkNames docMap fn (concat (map declNames ds)) acc"
proof (induction ds arbitrary: acc)
  case Nil
  show ?case by simp
next
  case (Cons d ds)
  show ?case
    by (cases d) (simp_all add: walkNames_append walkSpecs_flat Cons.IH split: sum.splits)
qed

lemma walkDecls_flat: "walkDecls f docMap fn = walkNames docMap fn (allNames f) []"
  by (simp add: walkDecls_def allNames_def walkDeclList_flat)

lemma walkNames_panics:
  "n \<in> set ns \<Longrightarrow> visitName docMap fn n = Inl e \<Longrightarrow> \<exists>e'. walkNames docMap fn ns acc = Inl e'"
  by (induction ns arbitrary: acc) (auto split: sum.splits option.splits)

lemma walkNames_returns:
  "(\<forall>n \<in> set ns. \<exists>r. visitName docMap fn n = Inr r) \<Longrightarrow> \<exists>rs. walkNames docMap fn ns acc = Inr rs"
  by (induction ns arbitrary: acc) (auto split: sum.splits option.splits)

lemma walkNames_no_match:
  "(\<forall>n \<in> set ns. visitName docMap fn n = Inr None) \<Longrightarrow> walkNames docMap fn ns acc = Inr acc"
  by (induction ns arbitrary: acc) (auto split: sum.splits option.splits)

section \<open>The mapping loop over a concatenation\<close>


section \<open>Evaluating the integer decoder\<close>

lemmas eval_int =
  parseBasicLit_def parseIntLit_def parseInt_def parseUint_def ParseInt_def ParseUint_def
  is_digit_def digit_val_def cutoff10_def maxUint64_def type_assert_def

lemma parseBasicLit_no_panic:
  assumes "V \<in> {Tbool, Tstring, Tint64, Tuint64, Tfloat64}"
  shows "\<exists>r. parseBasicLit lib V b = Inr r"
proof -
  consider "V = Tbool" | "V = Tstring" | "V = Tint64" | "V = Tuint64" | "V = Tfloat64"
    using assms by blast
  then show ?thesis
  proof cases
    case 1
    then show ?thesis by (simp add: parseBasicLit_def)
  next
    case 2
    then show ?thesis
      by (simp add: parseBasicLit_def type_assert_def split: option.splits)
  next
    case 3
    then show ?thesis
      by (simp add: parseBasicLit_def parseIntLit_def parseInt_def type_assert_def
          split: option.splits prod.splits)
  next
    case 4
    then show ?thesis
      by (simp add: parseBasicLit_def parseIntLit_def parseUint_def type_assert_def
          split: option.splits prod.splits)
  next
    case 5
    then show ?thesis
      by (simp add: parseBasicLit_def parseFloatLit_def parseFloat_def type_assert_def
          split: option.splits)
  qed
qed

lemmas eval_walk =
  walkDecls_def parsedValueSpec_def visitName_def TrimLeft_def intLit_def

section \<open>Tag matching\<close>

lemma findDoc_first:
  "(\<forall>d \<in> set pre. TrimLeft d ''/ '' \<notin> docMap) \<Longrightarrow> TrimLeft d0 ''/ '' \<in> docMap
     \<Longrightarrow> findDoc docMap (pre @ d0 # post) = TrimLeft d0 ''/ ''"
  by (induction pre) (simp_all add: Let_def)

lemma findDoc_none:
  "(\<forall>d \<in> set lst. TrimLeft d ''/ '' \<notin> docMap) \<Longrightarrow> findDoc docMap lst = []"
  by (induction lst) (simp_all add: Let_def)

lemma findDoc_member: "findDoc docMap lst \<noteq> [] \<Longrightarrow> findDoc docMap lst \<in> docMap"
  by (induction lst) (simp_all add: Let_def split: if_splits)

text \<open>
  Claim C6. The tag of a declaration is the first comment line that, with its leading
  \<^verbatim>\<open>/\<close> and space characters trimmed, is a member of the tag set: the lines after it
  do not matter (first conjunct), and it is the tag handed to the decode step together
  with the first initializer (second conjunct). A declaration without a doc comment, or
  without a line in the tag set, contributes nothing whatever the decode step is, so the
  step is not run on its initializer (third conjunct).
\<close>

theorem tag_first_match_wins:
  assumes "Obj n = Some (DeclValueSpec vSpec)"
  shows "((\<forall>d \<in> set pre. TrimLeft d ''/ '' \<notin> docMap) \<and> TrimLeft d0 ''/ '' \<in> docMap
            \<longrightarrow> findDoc docMap (pre @ d0 # post) = TrimLeft d0 ''/ '')
       \<and> (Doc vSpec = Some (pre @ d0 # post) \<and> (\<forall>d \<in> set pre. TrimLeft d ''/ '' \<notin> docMap)
            \<and> TrimLeft d0 ''/ '' \<in> docMap \<and> TrimLeft d0 ''/ '' \<noteq> [] \<and> Values vSpec = val # rest
            \<longrightarrow> visitName docMap fn n = fn (TrimLeft d0 ''/ '') (Name n) val)
       \<and> ((Doc vSpec = None \<or> (\<exists>lst. Doc vSpec = Some lst \<and> (\<forall>d \<in> set lst. TrimLeft d ''/ '' \<notin> docMap)))
            \<longrightarrow> visitName docMap fn n = Inr None)"
proof (intro conjI impI)
  assume "(\<forall>d \<in> set pre. TrimLeft d ''/ '' \<notin> docMap) \<and> TrimLeft d0 ''/ '' \<in> docMap"
  then show "findDoc docMap (pre @ d0 # post) = TrimLeft d0 ''/ ''"
    by (simp add: findDoc_first)
next
  assume h: "Doc vSpec = Some (pre @ d0 # post) \<and> (\<forall>d \<in> set pre. TrimLeft d ''/ '' \<notin> docMap)
            \<and> TrimLeft d0 ''/ '' \<in> docMap \<and> TrimLeft d0 ''/ '' \<noteq> [] \<and> Values vSpec = val # rest"
  then have "findDoc docMap (pre @ d0 # post) = TrimLeft d0 ''/ ''"
    by (simp add: findDoc_first)
  with h assms show "visitName docMap fn n = fn (TrimLeft d0 ''/ '') (Name n) val"
    by (simp add: visitName_eq matchedTag_def initializers_def)
next
  assume "Doc vSpec = None \<or> (\<exists>lst. Doc vSpec = Some lst \<and> (\<forall>d \<in> set lst. TrimLeft d ''/ '' \<notin> docMap))"
  then have "matchedTag docMap n = []"
    using assms by (auto simp: matchedTag_def findDoc_none)
  then show "visitName docMap fn n = Inr None"
    by (simp add: visitName_eq)
qed

theorem tag_first_match_wins_witness:
  "findDoc {''parser'', ''parser:str''} ([''// note''] @ ''// parser'' # [''// parser:str'']) = ''parser''
   \<and> visitName {''parser'', ''parser:str''} (getBasicValues_fn example_lib Tint64)
        \<lparr>Name = ''x'',
         Obj = Some (DeclValueSpec
                 \<lparr>Doc = Some ([''// note''] @ ''// parser'' # [''// parser:str'']),
                  Values = [BasicLitE \<lparr>Kind = token_INT, Value = ''3''\<rparr>]\<rparr>)\<rparr>
       = Inr (Some (LitValue ''parser'' ''x'' (VInt Tint64 3)))
   \<and> visitName {''parser''} (getBasicValues_fn example_lib Tint64)
        \<lparr>Name = ''y'',
         Obj = Some (DeclValueSpec
                 \<lparr>Doc = Some [''// note''],
                  Values = [BasicLitE \<lparr>Kind = token_INT, Value = ''17''\<rparr>]\<rparr>)\<rparr>
       = Inr None"
proof -
  let ?D = "{''parser'', ''parser:str''}"
  let ?vs = "\<lparr>Doc = Some ([''// note''] @ ''// parser'' # [''// parser:str'']),
                  Values = [BasicLitE \<lparr>Kind = token_INT, Value = ''3''\<rparr>]\<rparr>"
  let ?n = "\<lparr>Name = ''x'', Obj = Some (DeclValueSpec ?vs)\<rparr>"
  let ?ws = "\<lparr>Doc = Some [''// note''],
                  Values = [BasicLitE \<lparr>Kind = token_INT, Value = ''17''\<rparr>]\<rparr>"
  let ?m = "\<lparr>Name = ''y'', Obj = Some (DeclValueSpec ?ws)\<rparr>"
  have trim: "TrimLeft ''// note'' ''/ '' = ''note''" "TrimLeft ''// parser'' ''/ '' = ''parser''"
    by (simp_all add: TrimLeft_def)
  have n: "Obj ?n = Some (DeclValueSpec ?vs)" by simp
  have m: "Obj ?m = Some (DeclValueSpec ?ws)" by simp
  have fn: "getBasicValues_fn example_lib Tint64 ''parser'' ''x''
              (BasicLitE \<lparr>Kind = token_INT, Value = ''3''\<rparr>)
            = Inr (Some (LitValue ''parser'' ''x'' (VInt Tint64 3)))"
    by (simp add: getBasicValues_fn_def parseBasicLit_def parseIntLit_def parseInt_def
        ParseInt_def ParseUint_def is_digit_def digit_val_def cutoff10_def maxUint64_def
        type_assert_def)
  show ?thesis
    using tag_first_match_wins [OF n, of "[''// note'']" ?D "''// parser''" "[''// parser:str'']"
        "BasicLitE \<lparr>Kind = token_INT, Value = ''3''\<rparr>" "[]" "getBasicValues_fn example_lib Tint64"]
      tag_first_match_wins [OF m, of "[]" "{''parser''}" "''// note''" "[]"
        "BasicLitE \<lparr>Kind = token_INT, Value = ''17''\<rparr>" "[]" "getBasicValues_fn example_lib Tint64"]
    by (simp add: trim fn)
qed

section \<open>A tagged declaration without an initializer\<close>

lemma walkDecls_panics:
  assumes "n \<in> set (allNames f)" and "matchedTag docMap n \<noteq> []" and "initializers n = []"
  shows "\<exists>e. walkDecls f docMap fn = Inl e"
proof -
  have "visitName docMap fn n = Inl PanicIndexOutOfRange"
    using assms(2,3) by (simp add: visitName_eq)
  then show ?thesis
    unfolding walkDecls_flat using walkNames_panics [OF assms(1)] by blast
qed

text \<open>
  Claim C9. After a tag match \<^verbatim>\<open>walkDecls\<close> reads \<^verbatim>\<open>vSpec.Values[0]\<close> without testing the
  length: a file with a tagged name that has no initializer makes the walk panic for
  every decode step, hence the scalar, the sequence and the mapping query.
\<close>

theorem walkDecls_panics_without_initializer:
  assumes "n \<in> set (allNames f)" and "matchedTag docMap n \<noteq> []" and "initializers n = []"
  shows "(\<exists>e. walkDecls f docMap fn = Inl e)
       \<and> (\<exists>e. getBasicValues lib V f docMap = Inl e)
       \<and> (\<exists>e. getSliceValues lib V f docMap = Inl e)
       \<and> (\<exists>e. getMapValues lib K V f docMap = Inl e)"
  unfolding getBasicValues_def getSliceValues_def getMapValues_def
  by (intro conjI walkDecls_panics [OF assms])

theorem walkDecls_panics_without_initializer_witness:
  "\<lparr>Name = ''x'', Obj = Some (DeclValueSpec \<lparr>Doc = Some [''// parser''], Values = []\<rparr>)\<rparr>
     \<in> set (allNames \<lparr>Decls = [GenDecl [parsedValueSpec (Some [''// parser'']) [''x''] []]]\<rparr>)
   \<and> matchedTag {''parser''}
        \<lparr>Name = ''x'', Obj = Some (DeclValueSpec \<lparr>Doc = Some [''// parser''], Values = []\<rparr>)\<rparr> \<noteq> []
   \<and> initializers
        \<lparr>Name = ''x'', Obj = Some (DeclValueSpec \<lparr>Doc = Some [''// parser''], Values = []\<rparr>)\<rparr> = []
   \<and> (\<exists>e. getBasicValues example_lib Tint64
              \<lparr>Decls = [GenDecl [parsedValueSpec (Some [''// parser'']) [''x''] []]]\<rparr> {''parser''} = Inl e)
   \<and> (\<exists>e. getSliceValues example_lib Tint64
              \<lparr>Decls = [GenDecl [parsedValueSpec (Some [''// parser'']) [''x''] []]]\<rparr> {''parser''} = Inl e)
   \<and> (\<exists>e. getMapValues example_lib Tstring Tint64
              \<lparr>Decls = [GenDecl [parsedValueSpec (Some [''// parser'']) [''x''] []]]\<rparr> {''parser''} = Inl e)"
proof -
  let ?n = "\<lparr>Name = ''x'', Obj = Some (DeclValueSpec \<lparr>Doc = Some [''// parser''], Values = []\<rparr>)\<rparr>"
  let ?f = "\<lparr>Decls = [GenDecl [parsedValueSpec (Some [''// parser'']) [''x''] []]]\<rparr>"
  have h1: "?n \<in> set (allNames ?f)"
    by (simp add: allNames_def parsedValueSpec_def)
  have h2: "matchedTag {''parser''} ?n \<noteq> []"
    by (simp add: matchedTag_def TrimLeft_def)
  have h3: "initializers ?n = []"
    by (simp add: initializers_def)
  show ?thesis
    using h1 h2 h3
      walkDecls_panics_without_initializer [OF h1 h2 h3,
        of "getBasicValues_fn example_lib Tint64" example_lib Tint64 Tstring]
    by blast
qed

text \<open>
  Conversely the walk returns when every tagged name has an initializer and the decode
  step does not panic.
\<close>

lemma walkDecls_total:
  assumes "\<forall>doc name val. \<exists>r. fn doc name val = Inr r"
    and "\<forall>n \<in> set (allNames f). matchedTag docMap n \<noteq> [] \<longrightarrow> initializers n \<noteq> []"
  shows "\<exists>rs. walkDecls f docMap fn = Inr rs"
  unfolding walkDecls_flat
proof (rule walkNames_returns, rule ballI)
  fix n assume "n \<in> set (allNames f)"
  with assms show "\<exists>r. visitName docMap fn n = Inr r"
    by (cases "initializers n") (auto simp: visitName_eq)
qed

section \<open>Identifier initializers\<close>



section \<open>Literal kind and requested type\<close>

text \<open>
  Claim C7. A basic literal whose kind is not the one that the requested type accepts
  decodes to nil: no panic and no value.
\<close>

theorem parseBasicLit_kind_mismatch:
  assumes "literalCategory V \<noteq> Some (Kind val)"
  shows "parseBasicLit lib V val = Inr None"
  using assms
  by (auto simp: parseBasicLit_def parseIntLit_def parseFloatLit_def literalCategory_def
           split: if_splits)

theorem parseBasicLit_kind_mismatch_witness:
  "literalCategory Tfloat64 \<noteq> Some (Kind \<lparr>Kind = token_INT, Value = ''3''\<rparr>)
   \<and> parseBasicLit example_lib Tfloat64 \<lparr>Kind = token_INT, Value = ''3''\<rparr> = Inr None
   \<and> literalCategory Tint64 \<noteq> Some (Kind \<lparr>Kind = token_STRING, Value = ''abc''\<rparr>)
   \<and> parseBasicLit example_lib Tint64 \<lparr>Kind = token_STRING, Value = ''abc''\<rparr> = Inr None"
proof -
  have h1: "literalCategory Tfloat64 \<noteq> Some (Kind \<lparr>Kind = token_INT, Value = ''3''\<rparr>)"
    by (simp add: literalCategory_def)
  have h2: "literalCategory Tint64 \<noteq> Some (Kind \<lparr>Kind = token_STRING, Value = ''abc''\<rparr>)"
    by (simp add: literalCategory_def)
  show ?thesis
    using h1 h2 parseBasicLit_kind_mismatch [OF h1, of example_lib]
      parseBasicLit_kind_mismatch [OF h2, of example_lib]
    by simp
qed

section \<open>The sequence decode\<close>

lemma sliceLoop_skip:
  "sliceLoop lib V elts acc = sliceLoop lib V (filter isBasicLit elts) acc"
  by (induction lib V elts acc rule: sliceLoop.induct) (simp_all split: sum.splits option.splits)

lemma sliceLoop_no_slice:
  "BasicLitE b \<in> set elts \<Longrightarrow> parseBasicLit lib V b = Inr None
     \<Longrightarrow> sliceLoop lib V elts acc \<noteq> Inr (Some r)"
  by (induction lib V elts acc rule: sliceLoop.induct) (auto split: sum.splits option.splits)

lemma sliceLoop_abort:
  "BasicLitE b \<in> set elts \<Longrightarrow> parseBasicLit lib V b = Inr None
     \<Longrightarrow> (\<forall>b'. BasicLitE b' \<in> set elts \<longrightarrow> (\<exists>r. parseBasicLit lib V b' = Inr r))
     \<Longrightarrow> sliceLoop lib V elts acc = Inr None"
proof (induction lib V elts acc rule: sliceLoop.induct)
  case (2 lib V bVal elts sValues)
  then show ?case
    by (cases "parseBasicLit lib V bVal") (auto split: option.splits)
qed simp_all

text \<open>
  Claim C3. When some element of the composite literal is a basic literal that decodes
  to nil, the closure of \<^verbatim>\<open>getSliceValues\<close> returns no record, whatever the other
  elements are (first conjunct), and it returns nil when no element panics (second
  conjunct); the walk then appends nothing for the name (third conjunct). The elements
  that are not basic literals do not change the result (fourth conjunct).
\<close>

theorem getSliceValues_all_or_nothing:
  assumes "BasicLitE b \<in> set elts" and "parseBasicLit lib V b = Inr None"
  shows "(\<forall>r. getSliceValues_fn lib V doc name (CompositeLit elts) \<noteq> Inr (Some r))
       \<and> ((\<forall>b'. BasicLitE b' \<in> set elts \<longrightarrow> (\<exists>r. parseBasicLit lib V b' = Inr r))
            \<longrightarrow> getSliceValues_fn lib V doc name (CompositeLit elts) = Inr None)
       \<and> (initializers n = CompositeLit elts # rest
            \<longrightarrow> (\<forall>r. visitName docMap (getSliceValues_fn lib V) n \<noteq> Inr (Some r)))
       \<and> getSliceValues_fn lib V doc name (CompositeLit elts)
            = getSliceValues_fn lib V doc name (CompositeLit (filter isBasicLit elts))"
proof (intro conjI allI impI)
  have ns: "sliceLoop lib V elts [] \<noteq> Inr (Some r)" for r
    using sliceLoop_no_slice [OF assms] .
  show g: "getSliceValues_fn lib V doc name (CompositeLit elts) \<noteq> Inr (Some r)"
    for r doc name
    using ns by (auto simp: getSliceValues_fn_def split: sum.splits option.splits)
  show "visitName docMap (getSliceValues_fn lib V) n \<noteq> Inr (Some r)"
    if "initializers n = CompositeLit elts # rest" for r
    using that g by (simp add: visitName_eq)
  show "getSliceValues_fn lib V doc name (CompositeLit elts) = Inr None"
    if "\<forall>b'. BasicLitE b' \<in> set elts \<longrightarrow> (\<exists>r. parseBasicLit lib V b' = Inr r)"
    using sliceLoop_abort [OF assms that] by (simp add: getSliceValues_fn_def)
  show "getSliceValues_fn lib V doc name (CompositeLit elts)
            = getSliceValues_fn lib V doc name (CompositeLit (filter isBasicLit elts))"
    using sliceLoop_skip [of lib V elts "[]"] by (simp add: getSliceValues_fn_def)
qed

theorem getSliceValues_all_or_nothing_witness:
  "BasicLitE \<lparr>Kind = token_INT, Value = ''0x10''\<rparr>
     \<in> set [intLit ''1'', CompositeLit [], intLit ''0x10'']
   \<and> parseBasicLit example_lib Tint64 \<lparr>Kind = token_INT, Value = ''0x10''\<rparr> = Inr None
   \<and> getSliceValues_fn example_lib Tint64 ''parser'' ''s''
        (CompositeLit [intLit ''1'', CompositeLit [], intLit ''0x10'']) = Inr None
   \<and> (\<forall>r. visitName {''parser''} (getSliceValues_fn example_lib Tint64)
        \<lparr>Name = ''s'',
         Obj = Some (DeclValueSpec \<lparr>Doc = Some [''// parser''],
                 Values = [CompositeLit [intLit ''1'', CompositeLit [], intLit ''0x10'']]\<rparr>)\<rparr>
        \<noteq> Inr (Some r))
   \<and> getSliceValues_fn example_lib Tint64 ''parser'' ''s''
        (CompositeLit [intLit ''1'', CompositeLit []])
       = Inr (Some (SliceLitValue ''parser'' ''s'' [VInt Tint64 1]))"
proof -
  let ?elts = "[intLit ''1'', CompositeLit [], intLit ''0x10'']"
  let ?n = "\<lparr>Name = ''s'',
         Obj = Some (DeclValueSpec \<lparr>Doc = Some [''// parser''], Values = [CompositeLit ?elts]\<rparr>)\<rparr>"
  have h1: "BasicLitE \<lparr>Kind = token_INT, Value = ''0x10''\<rparr> \<in> set ?elts"
    by (simp add: intLit_def)
  have h2: "parseBasicLit example_lib Tint64 \<lparr>Kind = token_INT, Value = ''0x10''\<rparr> = Inr None"
    by (simp add: eval_int)
  have h3: "\<forall>b'. BasicLitE b' \<in> set ?elts \<longrightarrow> (\<exists>r. parseBasicLit example_lib Tint64 b' = Inr r)"
    by (simp add: parseBasicLit_no_panic)
  have h4: "initializers ?n = CompositeLit ?elts # []"
    by (simp add: initializers_def)
  have ok: "getSliceValues_fn example_lib Tint64 ''parser'' ''s''
        (CompositeLit [intLit ''1'', CompositeLit []])
       = Inr (Some (SliceLitValue ''parser'' ''s'' [VInt Tint64 1]))"
    by (simp add: getSliceValues_fn_def intLit_def eval_int)
  from getSliceValues_all_or_nothing [OF h1 h2, of "''parser''" "''s''" ?n "[]" "{''parser''}"]
    h1 h2 h3 h4 ok
  show ?thesis
    by blast
qed

section \<open>The mapping decode\<close>

lemma mapLoop_fold:
  "mapLoop lib K V elts acc = Inr m
     \<Longrightarrow> m = fold (\<lambda>(k, v). AList.update k v) (List.map_filter (decodedPair lib K V) elts) acc"
  by (induction lib K V elts acc arbitrary: m rule: mapLoop.induct)
     (auto simp: List.map_filter_simps split: sum.splits option.splits)

lemma map_of_fold_update:
  "map_of (fold (\<lambda>(k, v). AList.update k v) ps acc) = map_of acc ++ map_of (rev ps)"
proof (induction ps arbitrary: acc)
  case Nil
  show ?case by simp
next
  case (Cons p ps)
  obtain k v where p: "p = (k, v)" by (cases p)
  have "map_of (AList.update k v acc) ++ map_of (rev ps)
        = map_of acc ++ (map_of (rev ps @ [(k, v)]))"
    by (simp add: AList.update_conv' map_add_upd_left fun_eq_iff map_add_def split: option.splits)
  with Cons.IH [of "AList.update k v acc"] show ?case
    by (simp add: p)
qed

lemma distinct_fold_update:
  "distinct (map fst acc) \<Longrightarrow> distinct (map fst (fold (\<lambda>(k, v). AList.update k v) ps acc))"
  by (induction ps arbitrary: acc) (auto simp: AList.distinct_update)

lemma map_of_rev_last:
  "\<forall>p \<in> set post. fst p \<noteq> k \<Longrightarrow> map_of (rev (pre @ (k, v) # post)) k = Some v"
  by (induction post rule: rev_induct) (auto simp: map_add_def split: option.splits)

lemma map_filter_append:
  "List.map_filter g (xs @ ys) = List.map_filter g xs @ List.map_filter g ys"
  by (simp add: List.map_filter_def)

text \<open>
  Claim C8. The map of a record is built by inserting the decoded pairs in source order
  (third conjunct), its keys are unique (second conjunct), and the value found under a
  key is the one of the last element that decodes to that key (first conjunct).
\<close>

theorem getMapValues_last_write_wins:
  assumes "getMapValues_fn lib K V doc name (CompositeLit (pre @ e # post))
             = Inr (Some (MapLitValue d nm m))"
    and "decodedPair lib K V e = Some (k, v)"
    and "\<forall>e' \<in> set post. \<forall>v'. decodedPair lib K V e' \<noteq> Some (k, v')"
  shows "map_of m k = Some v
       \<and> distinct (map fst m)
       \<and> m = fold (\<lambda>(k, v). AList.update k v)
                (List.map_filter (decodedPair lib K V) (pre @ e # post)) []"
proof -
  let ?ps = "List.map_filter (decodedPair lib K V)"
  from assms(1) have "mapLoop lib K V (pre @ e # post) [] = Inr m"
    by (auto simp: getMapValues_fn_def split: sum.splits if_splits)
  then have m: "m = fold (\<lambda>(k, v). AList.update k v) (?ps (pre @ e # post)) []"
    by (rule mapLoop_fold)
  have split: "?ps (pre @ e # post) = ?ps pre @ (k, v) # ?ps post"
    using assms(2) by (simp add: map_filter_append List.map_filter_simps)
  have "\<forall>p \<in> set (?ps post). fst p \<noteq> k"
    using assms(3) by (auto simp: List.map_filter_def)
  then have "map_of (rev (?ps pre @ (k, v) # ?ps post)) k = Some v"
    by (rule map_of_rev_last)
  moreover have "map_of m = map_of [] ++ map_of (rev (?ps (pre @ e # post)))"
    unfolding m by (rule map_of_fold_update)
  ultimately have "map_of m k = Some v"
    by (simp only: split map_of.simps empty_map_add)
  moreover have "distinct (map fst m)"
    unfolding m by (rule distinct_fold_update) simp
  ultimately show ?thesis using m by blast
qed

theorem getMapValues_last_write_wins_witness:
  "getMapValues_fn example_lib Tint64 Tint64 ''parser'' ''m''
     (CompositeLit ([KeyValueExpr (intLit ''1'') (intLit ''2'')]
        @ KeyValueExpr (intLit ''1'') (intLit ''5'')
        # [KeyValueExpr (intLit ''3'') (intLit ''4'')]))
     = Inr (Some (MapLitValue ''parser'' ''m''
              [(VInt Tint64 1, VInt Tint64 5), (VInt Tint64 3, VInt Tint64 4)]))
   \<and> decodedPair example_lib Tint64 Tint64 (KeyValueExpr (intLit ''1'') (intLit ''2''))
       = Some (VInt Tint64 1, VInt Tint64 2)
   \<and> decodedPair example_lib Tint64 Tint64 (KeyValueExpr (intLit ''1'') (intLit ''5''))
       = Some (VInt Tint64 1, VInt Tint64 5)
   \<and> map_of [(VInt Tint64 1, VInt Tint64 5), (VInt Tint64 3, VInt Tint64 4)] (VInt Tint64 1)
       = Some (VInt Tint64 5)
   \<and> distinct (map fst [(VInt Tint64 1, VInt Tint64 5), (VInt Tint64 3, VInt Tint64 4)])"
proof -
  let ?pre = "[KeyValueExpr (intLit ''1'') (intLit ''2'')]"
  let ?e = "KeyValueExpr (intLit ''1'') (intLit ''5'')"
  let ?post = "[KeyValueExpr (intLit ''3'') (intLit ''4'')]"
  let ?m = "[(VInt Tint64 1, VInt Tint64 5), (VInt Tint64 3, VInt Tint64 4)]"
  have h1: "getMapValues_fn example_lib Tint64 Tint64 ''parser'' ''m''
              (CompositeLit (?pre @ ?e # ?post)) = Inr (Some (MapLitValue ''parser'' ''m'' ?m))"
    by (simp add: getMapValues_fn_def intLit_def eval_int)
  have h2: "decodedPair example_lib Tint64 Tint64 ?e = Some (VInt Tint64 1, VInt Tint64 5)"
    by (simp add: intLit_def eval_int)
  have h3: "\<forall>e' \<in> set ?post. \<forall>v'. decodedPair example_lib Tint64 Tint64 e' \<noteq> Some (VInt Tint64 1, v')"
    by (simp add: intLit_def eval_int)
  have h4: "decodedPair example_lib Tint64 Tint64 (KeyValueExpr (intLit ''1'') (intLit ''2''))
       = Some (VInt Tint64 1, VInt Tint64 2)"
    by (simp add: intLit_def eval_int)
  from getMapValues_last_write_wins [OF h1 h2 h3] h1 h2 h4 show ?thesis
    by blast
qed

section \<open>An element of a mapping that fails to decode\<close>




section \<open>Several names in one specification\<close>

text \<open>
  Claim C2 pairs each name with the initializer at its own position. The walk reads
  \<^verbatim>\<open>vSpec.Values[0]\<close> for every name: for the tagged declaration \<^verbatim>\<open>a, b = 1, 2\<close> the
  scalar query at \<^verbatim>\<open>int64\<close> gives the value 1 to both names.
\<close>

theorem walkDecls_shares_first_initializer:
  "GetBasicValues example_lib Tint64
     \<lparr>astFile = \<lparr>Decls = [GenDecl [parsedValueSpec (Some [''// parser'']) [''a'', ''b'']
                                  [intLit ''1'', intLit ''2'']]]\<rparr>\<rparr>
     [''parser'']
   = Inr [LitValue ''parser'' ''a'' (VInt Tint64 1), LitValue ''parser'' ''b'' (VInt Tint64 1)]"
  by (simp add: GetBasicValues_def getBasicValues_def getBasicValues_fn_def eval_walk eval_int)

section \<open>Receivers that are neither an identifier nor a pointer\<close>

text \<open>
  Claim C4 admits a declaration for a non-empty receiver name only when its receiver has
  that type, and for the empty name only when it has no receiver. The switch on the
  receiver's type has no default case: the method \<^verbatim>\<open>func (b Box[T]) Get()\<close> is returned
  for the name \<^verbatim>\<open>Other\<close> and for the empty name, while \<^verbatim>\<open>func (b *Box[T]) Set()\<close> is
  not returned even for \<^verbatim>\<open>Box\<close>.
\<close>

theorem GetFuncNames_generic_receiver:
  "GetFuncNames example_lib
     \<lparr>astFile = \<lparr>Decls = [FuncDeclD \<lparr>Recv = Some [IndexExpr (Ident ''Box'') (Ident ''T'')],
                                      FuncName = ''Get'',
                                      Type = Some \<lparr>Params = Some []\<rparr>\<rparr>]\<rparr>\<rparr>
     ''Other'' []
   = Inr [''Get'']
   \<and> GetFuncNames example_lib
     \<lparr>astFile = \<lparr>Decls = [FuncDeclD \<lparr>Recv = Some [IndexExpr (Ident ''Box'') (Ident ''T'')],
                                      FuncName = ''Get'',
                                      Type = Some \<lparr>Params = Some []\<rparr>\<rparr>]\<rparr>\<rparr>
     [] []
   = Inr [''Get'']
   \<and> GetFuncNames example_lib
     \<lparr>astFile = \<lparr>Decls = [FuncDeclD
         \<lparr>Recv = Some [StarExpr (IndexExpr (Ident ''Box'') (Ident ''T''))],
          FuncName = ''Set'',
          Type = Some \<lparr>Params = Some []\<rparr>\<rparr>]\<rparr>\<rparr>
     ''Box'' []
   = Inr []"
  by (simp add: GetFuncNames_def recvCheck_def paramsCheck_def)

section \<open>Integer types narrower than 64 bits\<close>

text \<open>
  Claim C5 has the largest value of every integer type decode. \<^verbatim>\<open>parseInt\<close> and
  \<^verbatim>\<open>parseUint\<close> assert that the \<^verbatim>\<open>int64\<close> or \<^verbatim>\<open>uint64\<close> they parsed has the type
  \<open>I\<close>: for the types of 8, 16 and 32 bits the assertion panics, and so does the scalar
  query on \<^verbatim>\<open>x = 127\<close> at \<^verbatim>\<open>int8\<close>. The last conjunct: the octal literal \<^verbatim>\<open>017\<close>
  is read in base 10.
\<close>

theorem parseIntLit_narrow_kinds_panic:
  "parseIntLit Tint8 \<lparr>Kind = token_INT, Value = ''127''\<rparr> = Inl PanicInterfaceConversion
   \<and> parseIntLit Tint16 \<lparr>Kind = token_INT, Value = ''32767''\<rparr> = Inl PanicInterfaceConversion
   \<and> parseIntLit Tint32 \<lparr>Kind = token_INT, Value = ''2147483647''\<rparr> = Inl PanicInterfaceConversion
   \<and> parseIntLit Tuint8 \<lparr>Kind = token_INT, Value = ''255''\<rparr> = Inl PanicInterfaceConversion
   \<and> parseIntLit Tuint16 \<lparr>Kind = token_INT, Value = ''65535''\<rparr> = Inl PanicInterfaceConversion
   \<and> parseIntLit Tuint32 \<lparr>Kind = token_INT, Value = ''4294967295''\<rparr> = Inl PanicInterfaceConversion
   \<and> GetBasicValues example_lib Tint8
        \<lparr>astFile = \<lparr>Decls = [GenDecl [parsedValueSpec (Some [''// parser'']) [''x'']
                                     [intLit ''127'']]]\<rparr>\<rparr>
        [''parser'']
       = Inl PanicInterfaceConversion
   \<and> parseIntLit Tint64 \<lparr>Kind = token_INT, Value = ''017''\<rparr> = Inr (Some (VInt Tint64 17))"
  by (simp add: GetBasicValues_def getBasicValues_def getBasicValues_fn_def eval_walk eval_int)

section \<open>The integer decoder on every text\<close>

lemma dec_val_ge: "n \<le> dec_val n cs"
proof (induction cs arbitrary: n)
  case Nil
  show ?case by simp
next
  case (Cons c cs)
  have "n \<le> n * 10 + digit_val c" by simp
  also have "\<dots> \<le> dec_val (n * 10 + digit_val c) cs" by (rule Cons.IH)
  finally show ?case by simp
qed

lemma digit_val_le: "is_digit c \<Longrightarrow> digit_val c \<le> 9"
  unfolding is_digit_def digit_val_def by arith

lemma wrap_step:
  fixes M :: nat
  assumes "n * 10 < M" and "d \<le> 9" and "9 < M" and "maxVal < M"
  shows "(((n * 10) mod M + d) mod M < (n * 10) mod M \<or> ((n * 10) mod M + d) mod M > maxVal)
           = (n * 10 + d > maxVal)
       \<and> (n * 10 + d \<le> maxVal \<longrightarrow> ((n * 10) mod M + d) mod M = n * 10 + d)"
proof -
  have a: "(n * 10) mod M = n * 10"
    using assms(1) by simp
  show ?thesis
  proof (cases "n * 10 + d < M")
    case True
    then have "(n * 10 + d) mod M = n * 10 + d" by simp
    then show ?thesis by (simp add: a)
  next
    case over: False
    then have "(n * 10 + d) mod M = (n * 10 + d - M) mod M"
      by (simp add: le_mod_geq)
    moreover have "n * 10 + d - M < M"
      using assms by arith
    ultimately have b: "(n * 10 + d) mod M = n * 10 + d - M"
      by simp
    have "n * 10 + d - M < n * 10"
      using over assms by arith
    with over assms(4) show ?thesis
      by (simp add: a b)
  qed
qed

lemma uint_step:
  assumes d: "d \<le> 9" and m: "maxVal < 2 ^ 64"
  shows "(if n \<ge> cutoff10 then True
          else (((n * 10) mod 2 ^ 64 + d) mod 2 ^ 64 < (n * 10) mod 2 ^ 64
                \<or> ((n * 10) mod 2 ^ 64 + d) mod 2 ^ 64 > maxVal))
         = (n * 10 + d > maxVal)
       \<and> (n * 10 + d \<le> maxVal \<longrightarrow> ((n * 10) mod 2 ^ 64 + d) mod 2 ^ 64 = n * 10 + d)"
proof (cases "n \<ge> cutoff10")
  case True
  then have "n * 10 + d \<ge> 2 ^ 64"
    by (simp add: cutoff10_def maxUint64_def)
  with m True show ?thesis by simp
next
  case False
  then have n10: "n * 10 < 2 ^ 64"
    by (simp add: cutoff10_def maxUint64_def)
  have nine: "(9::nat) < 2 ^ 64" by simp
  show ?thesis
    unfolding if_not_P [OF False] by (rule wrap_step [OF n10 d nine m])
qed

lemma uint_loop_digits:
  assumes "list_all is_digit cs" and "maxVal < 2 ^ 64"
  shows "uint_loop maxVal n cs =
           (if dec_val n cs \<le> maxVal \<or> cs = [] then (dec_val n cs, None) else (maxVal, Some ErrRange))"
  using assms(1)
proof (induction cs arbitrary: n)
  case Nil
  show ?case by simp
next
  case (Cons c cs)
  then have c: "is_digit c" and cs: "list_all is_digit cs" by simp_all
  note st = uint_step [OF digit_val_le [OF c] assms(2), of n]
  show ?case
  proof (cases "n * 10 + digit_val c > maxVal")
    case True
    then have "dec_val n (c # cs) > maxVal"
      using dec_val_ge [of "n * 10 + digit_val c" cs] by simp
    moreover have "uint_loop maxVal n (c # cs) = (maxVal, Some ErrRange)"
      using st True c by (auto simp: Let_def)
    ultimately show ?thesis by simp
  next
    case False
    then have le: "n * 10 + digit_val c \<le> maxVal" by simp
    with st have eq: "((n * 10) mod 2 ^ 64 + digit_val c) mod 2 ^ 64 = n * 10 + digit_val c"
      by blast
    have "uint_loop maxVal n (c # cs) = uint_loop maxVal (n * 10 + digit_val c) cs"
      using st False c by (auto simp: Let_def eq)
    also have "\<dots> = (if dec_val (n * 10 + digit_val c) cs \<le> maxVal \<or> cs = []
                      then (dec_val (n * 10 + digit_val c) cs, None)
                      else (maxVal, Some ErrRange))"
      by (rule Cons.IH [OF cs])
    finally show ?thesis using le by auto
  qed
qed

lemma uint_loop_nondigit:
  "\<not> list_all is_digit cs \<Longrightarrow> snd (uint_loop maxVal n cs) \<noteq> None"
  by (induction cs arbitrary: n) (auto simp: Let_def)

lemma ParseUint_digits:
  assumes "s \<noteq> []" and "list_all is_digit s" and "bitSize \<le> 64"
  shows "ParseUint s bitSize =
           (if dec_val 0 s \<le> 2 ^ bitSize - 1 then (dec_val 0 s, None)
            else (2 ^ bitSize - 1, Some ErrRange))"
proof -
  have "(2::nat) ^ bitSize \<le> 2 ^ 64"
    using assms(3) by (intro power_increasing) simp_all
  moreover have "(0::nat) < 2 ^ bitSize"
    by simp
  ultimately have "(2::nat) ^ bitSize - 1 < 2 ^ 64"
    by arith
  from uint_loop_digits [OF assms(2) this, of 0] assms(1) show ?thesis
    by (simp add: ParseUint_def)
qed

lemma ParseUint_nondigit:
  "\<not> list_all is_digit s \<Longrightarrow> snd (ParseUint s bitSize) \<noteq> None"
  by (cases "s = []") (simp_all add: ParseUint_def uint_loop_nondigit)

lemma uint_loop_range:
  "snd (uint_loop maxVal n cs) = Some ErrRange \<Longrightarrow> fst (uint_loop maxVal n cs) = maxVal"
  by (induction cs arbitrary: n) (auto simp: Let_def split: if_splits)

lemma is_digit_not_sign: "is_digit c \<Longrightarrow> c \<noteq> CHR ''+'' \<and> c \<noteq> CHR ''-''"
  by (auto simp: is_digit_def)

lemma pow_half: "0 < b \<Longrightarrow> (2::nat) ^ (b - 1) \<le> 2 ^ b - 1"
proof -
  assume "0 < b"
  then obtain k where b: "b = Suc k" by (cases b) auto
  have "(0::nat) < 2 ^ k" by simp
  then show ?thesis unfolding b by simp
qed

lemma ParseInt_digits:
  assumes "s \<noteq> []" and "list_all is_digit s" and "0 < bitSize" and "bitSize \<le> 64"
  shows "ParseInt s bitSize =
           (if dec_val 0 s < 2 ^ (bitSize - 1) then (int (dec_val 0 s), None)
            else (int (2 ^ (bitSize - 1)) - 1, Some ErrRange))"
proof -
  obtain c cs where s: "s = c # cs" using assms(1) by (cases s) auto
  with assms(2) have "is_digit c" by simp
  then have sign: "hd s \<noteq> CHR ''+''" "hd s \<noteq> CHR ''-''"
    using is_digit_not_sign s by auto
  note U = ParseUint_digits [OF assms(1,2,4)]
  note H = pow_half [OF assms(3)]
  show ?thesis
  proof (cases "dec_val 0 s \<le> 2 ^ bitSize - 1")
    case True
    with U have "ParseUint s bitSize = (dec_val 0 s, None)" by simp
    then show ?thesis
      using sign assms(1) by (simp add: ParseInt_def Let_def)
  next
    case False
    with U have u: "ParseUint s bitSize = (2 ^ bitSize - 1, Some ErrRange)" by simp
    from False H have "\<not> dec_val 0 s < 2 ^ (bitSize - 1)" by arith
    then show ?thesis
      using sign assms(1) u H by (simp add: ParseInt_def Let_def)
  qed
qed

lemma ParseInt_nondigit:
  assumes "\<not> list_all is_digit s" and "hd s \<noteq> CHR ''+''" and "hd s \<noteq> CHR ''-''"
    and "0 < bitSize"
  shows "snd (ParseInt s bitSize) \<noteq> None"
proof -
  from assms(1) have ne: "s \<noteq> []" by auto
  obtain un err where u: "ParseUint s bitSize = (un, err)" by (cases "ParseUint s bitSize")
  with ParseUint_nondigit [OF assms(1), of bitSize] have err: "err \<noteq> None" by simp
  show ?thesis
  proof (cases "err = Some ErrSyntax")
    case True
    then show ?thesis
      using ne u assms(2,3) by (simp add: ParseInt_def Let_def)
  next
    case False
    with err have r: "err = Some ErrRange" by (cases err) (auto intro: num_error.exhaust)
    with u ne have "un = 2 ^ bitSize - 1"
      using uint_loop_range [of "2 ^ bitSize - 1" 0 s] by (simp add: ParseUint_def)
    with pow_half [OF assms(4)] have "un \<ge> 2 ^ (bitSize - 1)" by simp
    then show ?thesis
      using ne u r assms(2,3) by (simp add: ParseInt_def Let_def)
  qed
qed

lemma parseInt_digits:
  assumes "s \<noteq> []" and "list_all is_digit s" and "I \<in> {Tint8, Tint16, Tint32, Tint64}"
  shows "parseInt I s =
           (if dec_val 0 s \<le> maxValue I
            then (if I = Tint64 then Inr (Some (VInt Tint64 (int (dec_val 0 s))))
                  else Inl PanicInterfaceConversion)
            else Inr None)"
proof -
  have P: "ParseInt s b =
           (if dec_val 0 s < 2 ^ (b - 1) then (int (dec_val 0 s), None)
            else (int (2 ^ (b - 1)) - 1, Some ErrRange))" if "0 < b" "b \<le> 64" for b
    using ParseInt_digits [OF assms(1,2) that] .
  consider "I = Tint8" | "I = Tint16" | "I = Tint32" | "I = Tint64"
    using assms(3) by blast
  then show ?thesis
  proof cases
    case 1
    with P [of 8] show ?thesis
      by (simp add: parseInt_def maxValue_def type_assert_def)
  next
    case 2
    with P [of 16] show ?thesis
      by (simp add: parseInt_def maxValue_def type_assert_def)
  next
    case 3
    with P [of 32] show ?thesis
      by (simp add: parseInt_def maxValue_def type_assert_def)
  next
    case 4
    with P [of 64] show ?thesis
      by (simp add: parseInt_def maxValue_def type_assert_def)
  qed
qed

lemma parseUint_digits:
  assumes "s \<noteq> []" and "list_all is_digit s" and "I \<in> {Tuint8, Tuint16, Tuint32, Tuint64}"
  shows "parseUint I s =
           (if dec_val 0 s \<le> maxValue I
            then (if I = Tuint64 then Inr (Some (VInt Tuint64 (int (dec_val 0 s))))
                  else Inl PanicInterfaceConversion)
            else Inr None)"
proof -
  have P: "ParseUint s b =
           (if dec_val 0 s \<le> 2 ^ b - 1 then (dec_val 0 s, None)
            else (2 ^ b - 1, Some ErrRange))" if "b \<le> 64" for b
    using ParseUint_digits [OF assms(1,2) that] .
  consider "I = Tuint8" | "I = Tuint16" | "I = Tuint32" | "I = Tuint64"
    using assms(3) by blast
  then show ?thesis
  proof cases
    case 1
    with P [of 8] show ?thesis
      by (simp add: parseUint_def maxValue_def type_assert_def)
  next
    case 2
    with P [of 16] show ?thesis
      by (simp add: parseUint_def maxValue_def type_assert_def)
  next
    case 3
    with P [of 32] show ?thesis
      by (simp add: parseUint_def maxValue_def type_assert_def)
  next
    case 4
    with P [of 64] show ?thesis
      by (simp add: parseUint_def maxValue_def type_assert_def)
  qed
qed

text \<open>
  An integer literal written with decimal digits only decodes exactly when its value is
  at most the largest value of the requested type; the decode then yields that value for
  \<^verbatim>\<open>int64\<close> and \<^verbatim>\<open>uint64\<close> and panics for the narrower types.
\<close>

theorem parseIntLit_decimal_digits:
  assumes "Kind val = token_INT" and "Value val \<noteq> []" and "list_all is_digit (Value val)"
    and "I \<in> {Tint8, Tint16, Tint32, Tint64, Tuint8, Tuint16, Tuint32, Tuint64}"
  shows "parseIntLit I val =
           (if dec_val 0 (Value val) \<le> maxValue I
            then (if I \<in> {Tint64, Tuint64} then Inr (Some (VInt I (int (dec_val 0 (Value val)))))
                  else Inl PanicInterfaceConversion)
            else Inr None)"
proof (cases "I \<in> {Tint8, Tint16, Tint32, Tint64}")
  case True
  from parseInt_digits [OF assms(2,3) True] True assms(1) show ?thesis
    by (auto simp: parseIntLit_def)
next
  case False
  with assms(4) have U: "I \<in> {Tuint8, Tuint16, Tuint32, Tuint64}" by blast
  from parseUint_digits [OF assms(2,3) U] U assms(1) show ?thesis
    by (auto simp: parseIntLit_def)
qed

theorem parseIntLit_decimal_digits_witness:
  "parseIntLit Tint64 \<lparr>Kind = token_INT, Value = ''9223372036854775807''\<rparr>
     = Inr (Some (VInt Tint64 9223372036854775807))
   \<and> parseIntLit Tuint8 \<lparr>Kind = token_INT, Value = ''256''\<rparr> = Inr None"
proof -
  let ?a = "\<lparr>Kind = token_INT, Value = ''9223372036854775807''\<rparr>"
  let ?b = "\<lparr>Kind = token_INT, Value = ''256''\<rparr>"
  have k: "Kind ?a = token_INT" "Kind ?b = token_INT"
    by simp_all
  have ne: "Value ?a \<noteq> []" "Value ?b \<noteq> []"
    by simp_all
  have dg: "list_all is_digit (Value ?a)" "list_all is_digit (Value ?b)"
    by (simp_all add: is_digit_def)
  have I: "Tint64 \<in> {Tint8, Tint16, Tint32, Tint64, Tuint8, Tuint16, Tuint32, Tuint64}"
    "Tuint8 \<in> {Tint8, Tint16, Tint32, Tint64, Tuint8, Tuint16, Tuint32, Tuint64}"
    by simp_all
  have v: "dec_val 0 (Value ?a) = 9223372036854775807" "dec_val 0 (Value ?b) = 256"
    by (simp_all add: digit_val_def)
  have "parseIntLit Tint64 ?a = Inr (Some (VInt Tint64 9223372036854775807))"
    unfolding parseIntLit_decimal_digits [OF k(1) ne(1) dg(1) I(1)] v
    by (simp add: maxValue_def)
  moreover have "parseIntLit Tuint8 ?b = Inr None"
    unfolding parseIntLit_decimal_digits [OF k(2) ne(2) dg(2) I(2)] v
    by (simp add: maxValue_def)
  ultimately show ?thesis
    by (rule conjI)
qed

text \<open>
  A literal with a character that is not a decimal digit (a base prefix, a digit
  separator) decodes to nil at every type.
\<close>

theorem parseIntLit_not_decimal_digits:
  assumes "\<not> list_all is_digit (Value val)"
    and "hd (Value val) \<noteq> CHR ''+''" and "hd (Value val) \<noteq> CHR ''-''"
  shows "parseIntLit I val = Inr None"
proof -
  have S: "snd (ParseInt (Value val) b) \<noteq> None" if "0 < b" for b
    using ParseInt_nondigit [OF assms that] .
  have U: "snd (ParseUint (Value val) b) \<noteq> None" for b
    using ParseUint_nondigit [OF assms(1)] .
  have i: "parseInt I (Value val) = Inr None"
    using S [of 8] S [of 16] S [of 32] S [of 64]
    by (auto simp: parseInt_def split: kind.splits prod.splits option.splits)
  have u: "parseUint I (Value val) = Inr None"
    using U [of 8] U [of 16] U [of 32] U [of 64]
    by (auto simp: parseUint_def split: kind.splits prod.splits option.splits)
  show ?thesis
    by (simp add: parseIntLit_def i u)
qed

theorem parseIntLit_not_decimal_digits_witness:
  "parseIntLit Tuint64 \<lparr>Kind = token_INT, Value = ''0x1F''\<rparr> = Inr None
   \<and> parseIntLit Tint64 \<lparr>Kind = token_INT, Value = ''1_000''\<rparr> = Inr None"
proof -
  have a: "\<not> list_all is_digit (Value \<lparr>Kind = token_INT, Value = ''0x1F''\<rparr>)"
    "\<not> list_all is_digit (Value \<lparr>Kind = token_INT, Value = ''1_000''\<rparr>)"
    by (simp_all add: is_digit_def)
  have b: "hd (Value \<lparr>Kind = token_INT, Value = ''0x1F''\<rparr>) \<noteq> CHR ''+''"
    "hd (Value \<lparr>Kind = token_INT, Value = ''0x1F''\<rparr>) \<noteq> CHR ''-''"
    "hd (Value \<lparr>Kind = token_INT, Value = ''1_000''\<rparr>) \<noteq> CHR ''+''"
    "hd (Value \<lparr>Kind = token_INT, Value = ''1_000''\<rparr>) \<noteq> CHR ''-''"
    by simp_all
  show ?thesis
    using parseIntLit_not_decimal_digits [OF a(1) b(1,2), of Tuint64]
      parseIntLit_not_decimal_digits [OF a(2) b(3,4), of Tint64]
    by simp
qed

section \<open>The function filter on identifier and pointer receivers\<close>

lemma recvCheck_plain:
  "plainRecv (Recv decl) \<Longrightarrow> recvCheck (Recv decl) recType = Inr (recvMatches decl recType)"
  by (cases "Recv decl" rule: plainRecv.cases)
     (auto simp: recvCheck_def recvMatches_def split: expr.splits)

lemma funcLoop_plain:
  "\<forall>decl \<in> set (funcDecls ds). plainRecv (Recv decl) \<Longrightarrow>
   funcLoop lib ds recType paramTypes acc =
     Inr (acc @ map FuncName
            (filter (\<lambda>decl. recvMatches decl recType \<and> paramsCheck lib (Type decl) paramTypes)
               (funcDecls ds)))"
proof (induction ds arbitrary: acc)
  case Nil
  show ?case by simp
next
  case (Cons d ds)
  show ?case
  proof (cases d)
    case (FuncDeclD decl)
    with Cons.prems have p: "plainRecv (Recv decl)"
      and rest: "\<forall>decl \<in> set (funcDecls ds). plainRecv (Recv decl)" by simp_all
    show ?thesis
      using Cons.IH [OF rest] by (simp add: FuncDeclD recvCheck_plain [OF p])
  next
    case (GenDecl specs)
    with Cons show ?thesis by simp
  next
    case BadDecl
    with Cons show ?thesis by simp
  qed
qed

lemma paramsCheck_none: "paramsCheck lib t []"
  by (simp add: paramsCheck_def split: option.splits)

text \<open>
  When every receiver of the file is an identifier or a pointer type,
  \<^verbatim>\<open>GetFuncNames\<close> returns, in source order, the names of the declarations that pass the
  receiver test and the parameter test; with no requirement at all these are the
  declarations without a receiver.
\<close>

theorem GetFuncNames_plain_receivers:
  assumes "\<forall>decl \<in> set (funcDecls (Decls (astFile g))). plainRecv (Recv decl)"
  shows "GetFuncNames lib g recType paramTypes =
           Inr (map FuncName
                  (filter (\<lambda>decl. recvMatches decl recType \<and> paramsCheck lib (Type decl) paramTypes)
                     (funcDecls (Decls (astFile g)))))
       \<and> GetFuncNames lib g [] [] =
           Inr (map FuncName (filter (\<lambda>decl. Recv decl = None) (funcDecls (Decls (astFile g)))))"
  using funcLoop_plain [OF assms, of lib _ _ "[]"]
  by (simp add: GetFuncNames_def recvMatches_def paramsCheck_none)

theorem GetFuncNames_plain_receivers_witness:
  "GetFuncNames example_lib \<lparr>astFile = example_funcs\<rparr> ''LocalStruct'' [''Context'', ''string'']
     = Inr [''usefulFunc1'', ''usefulFunc2'', ''usefulFunc3'']
   \<and> GetFuncNames example_lib \<lparr>astFile = example_funcs\<rparr> [] [''Context'']
     = Inr [''usefulFunc4'']
   \<and> GetFuncNames example_lib \<lparr>astFile = example_funcs\<rparr> [] [] = Inr [''usefulFunc4'']"
proof -
  have h: "\<forall>decl \<in> set (funcDecls (Decls (astFile \<lparr>astFile = example_funcs\<rparr>))).
             plainRecv (Recv decl)"
    by (simp add: example_funcs_def)
  show ?thesis
    using GetFuncNames_plain_receivers [OF h, of example_lib "''LocalStruct''" "[''Context'', ''string'']"]
      GetFuncNames_plain_receivers [OF h, of example_lib "[]" "[''Context'']"]
    by (simp add: example_funcs_def recvMatches_def paramsCheck_def paramsMap_def
        List.map_filter_simps example_lib_def)
qed

section \<open>Queries that return\<close>

lemma getBasicValues_fn_no_panic:
  assumes "V \<in> {Tbool, Tstring, Tint64, Tuint64, Tfloat64}"
  shows "\<exists>r. getBasicValues_fn lib V doc name val = Inr r"
proof (cases val)
  case (BasicLitE b)
  with parseBasicLit_no_panic [OF assms, of lib b] show ?thesis
    by (auto simp: getBasicValues_fn_def split: option.splits)
next
  case (Ident x)
  then show ?thesis
    by (auto simp: getBasicValues_fn_def type_assert_def split: prod.splits bool.splits)
qed (simp_all add: getBasicValues_fn_def)

lemma sliceLoop_no_panic:
  assumes "V \<in> {Tbool, Tstring, Tint64, Tuint64, Tfloat64}"
  shows "\<exists>r. sliceLoop lib V elts acc = Inr r"
  using assms
proof (induction lib V elts acc rule: sliceLoop.induct)
  case (2 lib V bVal elts sValues)
  from parseBasicLit_no_panic [OF "2.prems", of lib bVal] "2.IH" "2.prems" show ?case
    by (auto split: option.splits)
qed simp_all

lemma mapLoop_no_panic:
  assumes "K \<in> {Tbool, Tstring, Tint64, Tuint64, Tfloat64}"
    and "V \<in> {Tbool, Tstring, Tint64, Tuint64, Tfloat64}"
  shows "\<exists>r. mapLoop lib K V elts acc = Inr r"
  using assms
proof (induction lib K V elts acc rule: mapLoop.induct)
  case (2 lib K V bKey bVal elts cValues)
  from parseBasicLit_no_panic [OF "2.prems"(1), of lib bKey]
    parseBasicLit_no_panic [OF "2.prems"(2), of lib bVal] "2.IH" "2.prems"
  show ?case
    by (auto split: option.splits)
qed simp_all

lemma getSliceValues_fn_no_panic:
  assumes "V \<in> {Tbool, Tstring, Tint64, Tuint64, Tfloat64}"
  shows "\<exists>r. getSliceValues_fn lib V doc name val = Inr r"
proof (cases val)
  case (CompositeLit elts)
  with sliceLoop_no_panic [OF assms, of lib elts "[]"] show ?thesis
    by (auto simp: getSliceValues_fn_def split: option.splits)
qed (simp_all add: getSliceValues_fn_def)

lemma getMapValues_fn_no_panic:
  assumes "K \<in> {Tbool, Tstring, Tint64, Tuint64, Tfloat64}"
    and "V \<in> {Tbool, Tstring, Tint64, Tuint64, Tfloat64}"
  shows "\<exists>r. getMapValues_fn lib K V doc name val = Inr r"
proof (cases val)
  case (CompositeLit elts)
  with mapLoop_no_panic [OF assms, of lib elts "[]"] show ?thesis
    by (auto simp: getMapValues_fn_def)
qed (simp_all add: getMapValues_fn_def)

text \<open>
  For the types whose decode never panics, the three queries return on every file whose
  tagged names all have an initializer.
\<close>

theorem queries_return:
  assumes "K \<in> {Tbool, Tstring, Tint64, Tuint64, Tfloat64}"
    and "V \<in> {Tbool, Tstring, Tint64, Tuint64, Tfloat64}"
    and "\<forall>n \<in> set (allNames f). matchedTag docMap n \<noteq> [] \<longrightarrow> initializers n \<noteq> []"
  shows "(\<exists>rs. getBasicValues lib V f docMap = Inr rs)
       \<and> (\<exists>rs. getSliceValues lib V f docMap = Inr rs)
       \<and> (\<exists>rs. getMapValues lib K V f docMap = Inr rs)"
  unfolding getBasicValues_def getSliceValues_def getMapValues_def
proof (intro conjI)
  show "\<exists>rs. walkDecls f docMap (getBasicValues_fn lib V) = Inr rs"
    using getBasicValues_fn_no_panic [OF assms(2)] assms(3) by (intro walkDecls_total) auto
  show "\<exists>rs. walkDecls f docMap (getSliceValues_fn lib V) = Inr rs"
    using getSliceValues_fn_no_panic [OF assms(2)] assms(3) by (intro walkDecls_total) auto
  show "\<exists>rs. walkDecls f docMap (getMapValues_fn lib K V) = Inr rs"
    using getMapValues_fn_no_panic [OF assms(1,2)] assms(3) by (intro walkDecls_total) auto
qed

theorem queries_return_witness:
  "getBasicValues example_lib Tint64 example_vars {''parser''}
     = Inr [LitValue ''parser'' ''intValue'' (VInt Tint64 3)]
   \<and> getBasicValues example_lib Tbool example_vars {''parser''}
     = Inr [LitValue ''parser'' ''boolValue'' (VBool True)]
   \<and> getSliceValues example_lib Tint64 example_vars {''parser''}
     = Inr [SliceLitValue ''parser'' ''intSliceValue'' [VInt Tint64 3, VInt Tint64 17]]
   \<and> getMapValues example_lib Tstring Tint64 example_vars {''parser''} = Inr []"
proof -
  have k: "Tstring \<in> {Tbool, Tstring, Tint64, Tuint64, Tfloat64}"
    and v: "Tint64 \<in> {Tbool, Tstring, Tint64, Tuint64, Tfloat64}"
    by simp_all
  have i: "\<forall>n \<in> set (allNames example_vars).
             matchedTag {''parser''} n \<noteq> [] \<longrightarrow> initializers n \<noteq> []"
    by (simp add: allNames_def example_vars_def parsedValueSpec_def initializers_def)
  show ?thesis
    using queries_return [OF k v i, of example_lib]
    by (simp add: getBasicValues_def getSliceValues_def getMapValues_def
        getBasicValues_fn_def getSliceValues_fn_def getMapValues_fn_def
        parseBool_def ParseBool_def example_vars_def eval_walk eval_int)
qed

end
